theory Spec2Isabelle
  imports Main
begin

section \<open>OpenGL utilities: \<^verbatim>\<open>napari/_vispy/utils/gl.py\<close>\<close>

subsection \<open>numpy dtypes and arrays\<close>

text \<open>
  A numpy dtype, as far as \<^verbatim>\<open>fix_data_dtype\<close> looks at it: the kind character
  (\<^verbatim>\<open>dtype.kind\<close>: b, i, u, f, c, m, M, O, S, U, V), the item size in bytes and the
  byte order character (\<^verbatim>\<open>=\<close> native, \<^verbatim>\<open><\<close> or \<^verbatim>\<open>>\<close> swapped,
  \<^verbatim>\<open>|\<close> not applicable). Equality of dtypes (\<^verbatim>\<open>dtype in texture_dtypes\<close>)
  is equality of records.
\<close>

record dtype =
  kind :: char
  itemsize :: nat
  byteorder :: char

definition uint8 :: dtype where
  "uint8 = \<lparr>kind = CHR ''u'', itemsize = 1, byteorder = CHR ''|''\<rparr>"

definition uint16 :: dtype where
  "uint16 = \<lparr>kind = CHR ''u'', itemsize = 2, byteorder = CHR ''=''\<rparr>"

definition float32 :: dtype where
  "float32 = \<lparr>kind = CHR ''f'', itemsize = 4, byteorder = CHR ''=''\<rparr>"


definition int64 :: dtype where
  "int64 = \<lparr>kind = CHR ''i'', itemsize = 8, byteorder = CHR ''=''\<rparr>"


definition complex128 :: dtype where
  "complex128 = \<lparr>kind = CHR ''c'', itemsize = 16, byteorder = CHR ''=''\<rparr>"

text \<open>
  An array: its dtype, its shape and its elements. The element type \<open>'v\<close> and the
  conversion of one element from a dtype to another (numpy's C casts, with their
  rounding) belong to numpy: \<^verbatim>\<open>astype\<close> takes the conversion as the parameter
  \<open>cast\<close> (source dtype, target dtype, element).
\<close>

record 'v ndarray =
  dtype :: dtype
  shape :: "nat list"
  elems :: "'v list"

type_synonym 'v caster = "dtype \<Rightarrow> dtype \<Rightarrow> 'v \<Rightarrow> 'v"

definition astype :: "'v caster \<Rightarrow> 'v ndarray \<Rightarrow> dtype \<Rightarrow> 'v ndarray" where
  "astype cast data d =
     data\<lparr>dtype := d, elems := map (cast (dtype data) d) (elems data)\<rparr>"

text \<open>A conversion that keeps every element, for concrete inputs.\<close>

definition keep_elems :: "int caster" where
  "keep_elems src dst v = v"

subsection \<open>\<^verbatim>\<open>fix_data_dtype\<close>\<close>

datatype error = TypeError | ValueError | KeyError | IndexError

definition texture_dtypes :: "dtype list" where
  "texture_dtypes = [uint8, uint16, float32]"

text \<open>
  The dict literal of \<^verbatim>\<open>fix_data_dtype\<close>, from kind characters to scalar types
  (each scalar type written as its dtype). A missing key is Python's KeyError.
\<close>

definition kind_table :: "char \<rightharpoonup> dtype" where
  "kind_table =
     [CHR ''i'' \<mapsto> float32, CHR ''f'' \<mapsto> float32, CHR ''u'' \<mapsto> uint16, CHR ''b'' \<mapsto> uint8]"

definition fix_data_dtype :: "'v caster \<Rightarrow> 'v ndarray \<Rightarrow> error + 'v ndarray" where
  "fix_data_dtype cast data =
     (let dt = dtype data in
      if dt \<in> set texture_dtypes then Inr data
      else
        (case kind_table (kind dt) of
           None \<Rightarrow> Inl TypeError
         | Some dtype0 \<Rightarrow>
             (let dtype' = (if dtype0 = uint16 \<and> itemsize dt > 2 then float32 else dtype0)
              in Inr (astype cast data dtype'))))"

text \<open>Concrete arrays.\<close>

definition uint8_image :: "int ndarray" where
  "uint8_image = \<lparr>dtype = uint8, shape = [2], elems = [7, 255]\<rparr>"


definition int64_image :: "int ndarray" where
  "int64_image = \<lparr>dtype = int64, shape = [3], elems = [- 5, 0, 70000]\<rparr>"



definition complex_image :: "int ndarray" where
  "complex_image = \<lparr>dtype = complex128, shape = [1], elems = [1]\<rparr>"

subsection \<open>\<^verbatim>\<open>get_max_texture_sizes\<close>\<close>

text \<open>
  What \<^verbatim>\<open>gl.glGetParameter\<close> returns for an integer parameter: an integer, or a
  tuple (the empty tuple when the query gives nothing).
\<close>

datatype gl_value = GLInt int | GLTuple "int list"

text \<open>
  vispy is outside the repository: its operations are the fields of a record, over a
  state \<open>'w\<close> of the window system. \<^verbatim>\<open>get_current_canvas\<close> tells whether a canvas
  exists, \<^verbatim>\<open>Canvas\<close> creates a hidden one, \<^verbatim>\<open>canvas_close\<close> closes it, and
  \<^verbatim>\<open>glGetParameter\<close> reads a parameter in the current state.
\<close>

record ('w, 'c) vispy =
  get_current_canvas :: "'w \<Rightarrow> 'c option"
  Canvas :: "'w \<Rightarrow> 'c \<times> 'w"
  canvas_close :: "'c \<Rightarrow> 'w \<Rightarrow> 'w"
  glGetParameter :: "nat \<Rightarrow> 'w \<Rightarrow> gl_value"
  GL_MAX_TEXTURE_SIZE :: nat

definition GL_MAX_3D_TEXTURE_SIZE :: nat where
  "GL_MAX_3D_TEXTURE_SIZE = 32883"

text \<open>
  The context manager \<^verbatim>\<open>_opengl_context\<close>: a canvas is created only when none
  exists, the body runs, and a canvas that was created is closed.
\<close>

definition opengl_context ::
    "('w, 'c) vispy \<Rightarrow> ('w \<Rightarrow> 'r) \<Rightarrow> 'w \<Rightarrow> 'r \<times> 'w" where
  "opengl_context V body w =
     (case get_current_canvas V w of
        None \<Rightarrow> (let (canvas, w1) = Canvas V w in (body w1, canvas_close V canvas w1))
      | Some c \<Rightarrow> (body w, w))"

definition none_if_empty :: "gl_value \<Rightarrow> gl_value option" where
  "none_if_empty x = (if x = GLTuple [] then None else Some x)"

text \<open>The body of \<^verbatim>\<open>get_max_texture_sizes\<close>, without the cache.\<close>

definition get_max_texture_sizes_body ::
    "('w, 'c) vispy \<Rightarrow> 'w \<Rightarrow> (gl_value option \<times> gl_value option) \<times> 'w" where
  "get_max_texture_sizes_body V w =
     (let (max_size_2d, w1) = opengl_context V (glGetParameter V (GL_MAX_TEXTURE_SIZE V)) w;
          max_size_2d = none_if_empty max_size_2d;
          (max_size_3d, w2) = opengl_context V (glGetParameter V GL_MAX_3D_TEXTURE_SIZE) w1;
          max_size_3d = none_if_empty max_size_3d
      in ((max_size_2d, max_size_3d), w2))"

text \<open>
  \<^verbatim>\<open>@lru_cache\<close> on a function of no argument: the cache holds at most the one
  result. A call with a filled cache returns the cached value and does not run the body.
\<close>

type_synonym sizes_cache = "(gl_value option \<times> gl_value option) option"

definition get_max_texture_sizes ::
    "('w, 'c) vispy \<Rightarrow> sizes_cache \<times> 'w \<Rightarrow>
     (gl_value option \<times> gl_value option) \<times> (sizes_cache \<times> 'w)" where
  "get_max_texture_sizes V st =
     (case fst st of
        Some r \<Rightarrow> (r, st)
      | None \<Rightarrow> (let (r, w') = get_max_texture_sizes_body V (snd st) in (r, (Some r, w'))))"

text \<open>A window system for concrete inputs: the state counts the canvases created.\<close>

definition demo_vispy :: "(nat, nat) vispy" where
  "demo_vispy =
     \<lparr>get_current_canvas = (\<lambda>w. None),
      Canvas = (\<lambda>w. (w, Suc w)),
      canvas_close = (\<lambda>c w. w),
      glGetParameter = (\<lambda>p w. if p = 3379 then GLInt (16384 + int w) else GLTuple []),
      GL_MAX_TEXTURE_SIZE = 3379\<rparr>"

section \<open>Selectable evented lists: \<^verbatim>\<open>napari/utils/events/containers/_selectable_list.py\<close>\<close>

subsection \<open>State\<close>

text \<open>
  The events of the class documentation of \<^verbatim>\<open>SelectableEventedList\<close> that the
  operations below emit: those of the list, and \<^verbatim>\<open>selection.changed\<close> (added,
  removed), \<^verbatim>\<open>selection.active\<close> and \<^verbatim>\<open>selection._current\<close>.
\<close>

datatype 'a event =
    Inserting int
  | Inserted int 'a
  | Removing int
  | Removed int 'a
  | Selection_changed "'a list" "'a list"
  | Selection_active "'a option"
  | Selection_current "'a option"

text \<open>
  One object: the list's contents, the selection (a Python set: a list here, whose
  order stands for the set's iteration order), the selection's current item, the flag
  \<^verbatim>\<open>_activate_on_insert\<close>, and the events emitted so far, each with the list's
  contents at the moment it was emitted (what a listener connected to it would see).
\<close>

record 'a sel_list =
  items :: "'a list"
  selection :: "'a list"
  current :: "'a option"
  activate_on_insert :: bool
  emitted :: "('a event \<times> 'a list) list"

text \<open>An operation returns the new state, or the exception raised and the state left.\<close>

type_synonym 'a outcome = "error \<times> 'a sel_list + 'a sel_list"

definition state_after :: "'a outcome \<Rightarrow> 'a sel_list" where
  "state_after r = (case r of Inl (e, s) \<Rightarrow> s | Inr s \<Rightarrow> s)"

definition emit :: "'a event \<Rightarrow> 'a sel_list \<Rightarrow> 'a sel_list" where
  "emit e s = s\<lparr>emitted := emitted s @ [(e, items s)]\<rparr>"

definition is_list_event :: "'a event \<Rightarrow> bool" where
  "is_list_event e =
     (case e of Inserting i \<Rightarrow> True | Inserted i v \<Rightarrow> True
      | Removing i \<Rightarrow> True | Removed i v \<Rightarrow> True | _ \<Rightarrow> False)"

definition list_events :: "('a event \<times> 'a list) list \<Rightarrow> ('a event \<times> 'a list) list" where
  "list_events evs = filter (\<lambda>(e, xs). is_list_event e) evs"

subsection \<open>Python's lists\<close>

text \<open>
  \<^verbatim>\<open>list.insert(index, value)\<close>: a negative index counts from the end, and an index
  out of range is clamped to the nearest end.
\<close>

definition list_insert :: "int \<Rightarrow> 'a \<Rightarrow> 'a list \<Rightarrow> 'a list" where
  "list_insert index v xs =
     (let n = int (length xs);
          i = (if index < 0 then max 0 (index + n) else min index n)
      in take (nat i) xs @ v # drop (nat i) xs)"

text \<open>\<^verbatim>\<open>list.index(value)\<close>: the first position of the value, if any.\<close>

fun first_index :: "'a \<Rightarrow> 'a list \<Rightarrow> nat option" where
  "first_index v [] = None"
| "first_index v (x # xs) =
     (if x = v then Some 0 else map_option Suc (first_index v xs))"

subsection \<open>The base class \<^verbatim>\<open>EventedList\<close>\<close>

text \<open>
  Modelled from the spec: \<^verbatim>\<open>EventedList.insert\<close> (the file
  \<^verbatim>\<open>_evented_list.py\<close> is not among the sources). An ordered collection with change
  notifications: \<^verbatim>\<open>inserting(index)\<close> is emitted before an item is inserted at
  \<^verbatim>\<open>index\<close>, and \<^verbatim>\<open>inserted(index, value)\<close> after.
\<close>

definition EventedList_insert :: "int \<Rightarrow> 'a \<Rightarrow> 'a sel_list \<Rightarrow> 'a sel_list" where
  "EventedList_insert index v s =
     (let s1 = emit (Inserting index) s;
          s2 = s1\<lparr>items := list_insert index v (items s1)\<rparr>
      in emit (Inserted index v) s2)"

text \<open>
  Modelled from the spec: \<^verbatim>\<open>EventedList.index\<close>, the position of the first item
  equal to the value; ValueError when there is none.
\<close>

definition EventedList_index :: "'a \<Rightarrow> 'a sel_list \<Rightarrow> error + int" where
  "EventedList_index v s =
     (case first_index v (items s) of None \<Rightarrow> Inl ValueError | Some i \<Rightarrow> Inr (int i))"

text \<open>
  Modelled from the spec: \<^verbatim>\<open>EventedList.__getitem__\<close> at an integer, with Python's
  negative indices; IndexError out of range.
\<close>

definition EventedList_getitem :: "int \<Rightarrow> 'a sel_list \<Rightarrow> error + 'a" where
  "EventedList_getitem key s =
     (let n = int (length (items s));
          index = (if key < 0 then key + n else key)
      in if 0 \<le> index \<and> index < n then Inr (items s ! nat index) else Inl IndexError)"

text \<open>
  Modelled from the spec: \<^verbatim>\<open>EventedList.__delitem__\<close> at an integer.
  \<^verbatim>\<open>removing(index)\<close> is emitted before the item is removed at \<^verbatim>\<open>index\<close>, the
  removed item is handed to \<^verbatim>\<open>_process_delete_item\<close> (which the subclass overrides),
  and \<^verbatim>\<open>removed(index, value)\<close> is emitted after.
\<close>

definition EventedList_delitem ::
    "('a \<Rightarrow> 'a sel_list \<Rightarrow> 'a sel_list) \<Rightarrow> int \<Rightarrow> 'a sel_list \<Rightarrow> 'a outcome" where
  "EventedList_delitem process_delete key s =
     (let n = int (length (items s));
          index = (if key < 0 then key + n else key)
      in if 0 \<le> index \<and> index < n then
           (let s1 = emit (Removing index) s;
                item = items s1 ! nat index;
                s2 = s1\<lparr>items := take (nat index) (items s1) @ drop (Suc (nat index)) (items s1)\<rparr>;
                s3 = process_delete item s2
            in Inr (emit (Removed index item) s3))
         else Inl (IndexError, s))"

text \<open>
  Modelled from the spec: \<^verbatim>\<open>EventedList.remove\<close>, the \<^verbatim>\<open>remove\<close> of a mutable
  sequence: the first item equal to the value is deleted; ValueError when there is none.
\<close>

definition EventedList_remove ::
    "('a \<Rightarrow> 'a sel_list \<Rightarrow> 'a sel_list) \<Rightarrow> 'a \<Rightarrow> 'a sel_list \<Rightarrow> 'a outcome" where
  "EventedList_remove process_delete v s =
     (case EventedList_index v s of
        Inl e \<Rightarrow> Inl (e, s)
      | Inr i \<Rightarrow> EventedList_delitem process_delete i s)"

subsection \<open>The selection\<close>

text \<open>
  Modelled from the spec: \<^verbatim>\<open>Selection.add\<close> (the file \<^verbatim>\<open>_selection.py\<close> is not
  among the sources). An item already selected stays; otherwise \<^verbatim>\<open>_pre_add_hook\<close> is
  called before the item is added (it may raise), the hook's result is added, and
  \<^verbatim>\<open>selection.changed\<close> is emitted.
\<close>

definition Selection_add ::
    "('a sel_list \<Rightarrow> 'a \<Rightarrow> error + 'a) \<Rightarrow> 'a \<Rightarrow> 'a sel_list \<Rightarrow> 'a outcome" where
  "Selection_add pre_add_hook v s =
     (if v \<in> set (selection s) then Inr s
      else
        (case pre_add_hook s v of
           Inl e \<Rightarrow> Inl (e, s)
         | Inr v' \<Rightarrow> Inr (emit (Selection_changed [v] []) (s\<lparr>selection := selection s @ [v']\<rparr>))))"

text \<open>
  Modelled from the spec: \<^verbatim>\<open>Selection.discard\<close>. A selected item is taken out of
  the set and \<^verbatim>\<open>selection.changed\<close> is emitted; an item not selected changes nothing.
\<close>

definition Selection_discard :: "'a \<Rightarrow> 'a sel_list \<Rightarrow> 'a sel_list" where
  "Selection_discard v s =
     (if v \<in> set (selection s)
      then emit (Selection_changed [] [v]) (s\<lparr>selection := removeAll v (selection s)\<rparr>)
      else s)"

text \<open>
  Modelled from the spec: \<^verbatim>\<open>Selection.remove\<close>, the \<^verbatim>\<open>remove\<close> of a mutable set:
  KeyError for an item not selected, \<^verbatim>\<open>discard\<close> otherwise.
\<close>

definition Selection_remove :: "'a \<Rightarrow> 'a sel_list \<Rightarrow> 'a outcome" where
  "Selection_remove v s =
     (if v \<in> set (selection s) then Inr (Selection_discard v s) else Inl (KeyError, s))"

text \<open>The hook applied to each item in turn; the first exception ends the run.\<close>

fun hook_all :: "('a \<Rightarrow> error + 'a) \<Rightarrow> 'a list \<Rightarrow> error + 'a list" where
  "hook_all h [] = Inr []"
| "hook_all h (x # xs) =
     (case h x of
        Inl e \<Rightarrow> Inl e
      | Inr x' \<Rightarrow> (case hook_all h xs of Inl e \<Rightarrow> Inl e | Inr xs' \<Rightarrow> Inr (x' # xs')))"

text \<open>
  Modelled from the spec: \<^verbatim>\<open>Selection.update\<close>. Every item of \<^verbatim>\<open>others\<close> that is
  not selected yet goes through \<^verbatim>\<open>_pre_add_hook\<close>; when no hook raised, the items are
  added and one \<^verbatim>\<open>selection.changed\<close> is emitted, if anything was added.
\<close>

definition Selection_update ::
    "('a sel_list \<Rightarrow> 'a \<Rightarrow> error + 'a) \<Rightarrow> 'a list \<Rightarrow> 'a sel_list \<Rightarrow> 'a outcome" where
  "Selection_update pre_add_hook others s =
     (case hook_all (pre_add_hook s) (filter (\<lambda>i. i \<notin> set (selection s)) others) of
        Inl e \<Rightarrow> Inl (e, s)
      | Inr xs \<Rightarrow>
          (let to_add = remdups xs
           in if to_add = [] then Inr s
              else Inr (emit (Selection_changed to_add []) (s\<lparr>selection := selection s @ to_add\<rparr>))))"

text \<open>
  Modelled from the spec: the setter of \<^verbatim>\<open>Selection._current\<close>. The current item
  changes and \<^verbatim>\<open>selection._current\<close> is emitted; setting the same item changes
  nothing.
\<close>

definition Selection_set_current :: "'a option \<Rightarrow> 'a sel_list \<Rightarrow> 'a sel_list" where
  "Selection_set_current v s =
     (if current s = v then s else emit (Selection_current v) (s\<lparr>current := v\<rparr>))"

text \<open>
  Modelled from the spec: the setter of \<^verbatim>\<open>Selection.active\<close>, for an item. The item
  is made selected and all others are unselected (the words of \<^verbatim>\<open>insert\<close>); the item
  is added as \<^verbatim>\<open>Selection.add\<close> adds it, so \<^verbatim>\<open>_pre_add_hook\<close> may
  raise. The item becomes the current item and \<^verbatim>\<open>selection.active\<close> is emitted.
\<close>

definition Selection_set_active ::
    "('a sel_list \<Rightarrow> 'a \<Rightarrow> error + 'a) \<Rightarrow> 'a \<Rightarrow> 'a sel_list \<Rightarrow> 'a outcome" where
  "Selection_set_active pre_add_hook v s =
     (let others = filter (\<lambda>x. x \<noteq> v) (selection s);
          s1 = (if others = [] then s
                else emit (Selection_changed [] others)
                       (s\<lparr>selection := filter (\<lambda>x. x = v) (selection s)\<rparr>))
      in case Selection_add pre_add_hook v s1 of
           Inl es \<Rightarrow> Inl es
         | Inr s2 \<Rightarrow> Inr (emit (Selection_active (Some v)) (Selection_set_current (Some v) s2)))"


subsection \<open>\<^verbatim>\<open>SelectableEventedList\<close>\<close>

text \<open>\<^verbatim>\<open>__init__\<close>, for no initial data: an empty list with \<^verbatim>\<open>_activate_on_insert\<close> set.\<close>

definition init :: "'a sel_list" where
  "init = \<lparr>items = [], selection = [], current = None, activate_on_insert = True, emitted = []\<rparr>"

definition preselect_hook :: "'a sel_list \<Rightarrow> 'a \<Rightarrow> error + 'a" where
  "preselect_hook s v = (if v \<notin> set (items s) then Inl ValueError else Inr v)"

definition process_delete_item :: "'a \<Rightarrow> 'a sel_list \<Rightarrow> 'a sel_list" where
  "process_delete_item item s = Selection_discard item s"

text \<open>\<^verbatim>\<open>insert\<close> (the name is taken by sets).\<close>

definition insert_sel :: "int \<Rightarrow> 'a \<Rightarrow> 'a sel_list \<Rightarrow> 'a outcome" where
  "insert_sel index v s =
     (let s1 = EventedList_insert index v s
      in if activate_on_insert s1 then Selection_set_active preselect_hook v s1 else Inr s1)"

text \<open>\<^verbatim>\<open>remove\<close>, inherited, with the \<^verbatim>\<open>_process_delete_item\<close> of this class.\<close>

definition remove :: "'a \<Rightarrow> 'a sel_list \<Rightarrow> 'a outcome" where
  "remove v s = EventedList_remove process_delete_item v s"

definition select_all :: "'a sel_list \<Rightarrow> 'a outcome" where
  "select_all s = Selection_update preselect_hook (items s) s"

text \<open>
  The loop of \<^verbatim>\<open>remove_selected\<close>, over the copy \<^verbatim>\<open>list(self.selection)\<close> taken
  before the first removal; \<open>idx\<close> is the index of the item removed last.
\<close>

fun remove_selected_loop :: "'a list \<Rightarrow> int \<Rightarrow> 'a sel_list \<Rightarrow> error \<times> 'a sel_list + int \<times> 'a sel_list" where
  "remove_selected_loop [] idx s = Inr (idx, s)"
| "remove_selected_loop (i # rest) idx s =
     (case EventedList_index i s of
        Inl e \<Rightarrow> Inl (e, s)
      | Inr idx' \<Rightarrow>
          (case remove i s of
             Inl es \<Rightarrow> Inl es
           | Inr s' \<Rightarrow> remove_selected_loop rest idx' s'))"

text \<open>
  \<^verbatim>\<open>remove_selected\<close>. The index of a flat list is an integer, so the branch
  \<^verbatim>\<open>isinstance(idx, int)\<close> is the one taken; the other branch serves the nested
  subclass, whose indices are tuples.
\<close>

definition remove_selected :: "'a sel_list \<Rightarrow> 'a outcome" where
  "remove_selected s =
     (case remove_selected_loop (selection s) 0 s of
        Inl es \<Rightarrow> Inl es
      | Inr (idx, s1) \<Rightarrow>
          (let new = max 0 (idx - 1);
               do_add = int (length (items s1)) > new
           in if do_add then
                (case EventedList_getitem new s1 of
                   Inl e \<Rightarrow> Inl (e, s1)
                 | Inr v \<Rightarrow> Selection_add preselect_hook v s1)
              else Inr s1))"

text \<open>
  \<^verbatim>\<open>select_next\<close>. Whether the current item counts as true in the test
  \<^verbatim>\<open>self.selection and self.selection._current\<close> is up to the item's class: the
  parameter \<open>truthy\<close> (None counts as false). Under that test a current item
  exists, so the case \<open>None\<close> of the first branch is never reached.
\<close>

definition select_next :: "('a \<Rightarrow> bool) \<Rightarrow> int \<Rightarrow> bool \<Rightarrow> 'a sel_list \<Rightarrow> 'a outcome" where
  "select_next truthy step shift s =
     (if selection s \<noteq> [] \<and> (case current s of None \<Rightarrow> False | Some c \<Rightarrow> truthy c) then
        (case current s of
           None \<Rightarrow> Inr s
         | Some cur \<Rightarrow>
             (case EventedList_index cur s of
                Inl e \<Rightarrow> Inl (e, s)
              | Inr i \<Rightarrow>
                  (let idx = i + step
                   in if int (length (items s)) > idx \<and> idx \<ge> 0 then
                        (case EventedList_getitem idx s of
                           Inl e \<Rightarrow> Inl (e, s)
                         | Inr next_layer \<Rightarrow>
                             if shift then
                               if next_layer \<in> set (selection s) then
                                 (case Selection_remove cur s of
                                    Inl es \<Rightarrow> Inl es
                                  | Inr s1 \<Rightarrow> Inr (Selection_set_current (Some next_layer) s1))
                               else
                                 (case Selection_add preselect_hook next_layer s of
                                    Inl es \<Rightarrow> Inl es
                                  | Inr s1 \<Rightarrow> Inr (Selection_set_current (Some next_layer) s1))
                             else Selection_set_active preselect_hook next_layer s)
                      else Inr s)))
      else if length (items s) > 0 then
        (case EventedList_getitem (if step > 0 then - 1 else 0) s of
           Inl e \<Rightarrow> Inl (e, s)
         | Inr v \<Rightarrow> Selection_set_active preselect_hook v s)
      else Inr s)"

definition select_previous :: "('a \<Rightarrow> bool) \<Rightarrow> bool \<Rightarrow> 'a sel_list \<Rightarrow> 'a outcome" where
  "select_previous truthy shift s = select_next truthy (- 1) shift s"

text \<open>The invariant: every selected item is an item of the list.\<close>

definition selection_in_list :: "'a sel_list \<Rightarrow> bool" where
  "selection_in_list s = (set (selection s) \<subseteq> set (items s))"

text \<open>A list of three layers, the second one selected and current, for concrete inputs.\<close>

definition layers :: "string sel_list" where
  "layers = \<lparr>items = [''a'', ''b'', ''c''], selection = [''b''], current = Some ''b'',
              activate_on_insert = True, emitted = []\<rparr>"

definition nonempty :: "string \<Rightarrow> bool" where
  "nonempty x = (x \<noteq> [])"

text \<open>The same list with nothing selected.\<close>

definition unselected_layers :: "string sel_list" where
  "unselected_layers = layers\<lparr>selection := []\<rparr>"

section \<open>Properties of \<^verbatim>\<open>fix_data_dtype\<close>\<close>

lemma texture_dtypes_mem:
  "d \<in> set texture_dtypes \<longleftrightarrow> d = uint8 \<or> d = uint16 \<or> d = float32"
  by (auto simp: texture_dtypes_def)

lemma dtype_astype [simp]: "dtype (astype cast data d) = d"
  by (simp add: astype_def)

lemma kind_table_Some:
  "kind_table k = Some d \<longleftrightarrow>
     (k = CHR ''b'' \<and> d = uint8) \<or> (k = CHR ''u'' \<and> d = uint16) \<or>
     (k = CHR ''f'' \<and> d = float32) \<or> (k = CHR ''i'' \<and> d = float32)"
  by (auto simp: kind_table_def)

lemma kind_table_None:
  "kind_table k = None \<longleftrightarrow> k \<notin> {CHR ''i'', CHR ''f'', CHR ''u'', CHR ''b''}"
  by (auto simp: kind_table_def)

lemma fix_data_dtype_result_dtype:
  assumes "fix_data_dtype cast data = Inr r"
  shows "dtype r \<in> set texture_dtypes"
proof (cases "dtype data \<in> set texture_dtypes")
  case True
  with assms show ?thesis by (simp add: fix_data_dtype_def)
next
  case False
  with assms obtain d0 where d0: "kind_table (kind (dtype data)) = Some d0"
    and r: "r = astype cast data (if d0 = uint16 \<and> itemsize (dtype data) > 2 then float32 else d0)"
    by (auto simp: fix_data_dtype_def Let_def split: option.splits)
  from d0 have "d0 = uint8 \<or> d0 = uint16 \<or> d0 = float32"
    by (auto simp: kind_table_Some)
  with r show ?thesis by (auto simp: texture_dtypes_mem)
qed




text \<open>
  Claim C2. \<^verbatim>\<open>fix_data_dtype\<close> raises TypeError if and only if the dtype is not one
  of uint8, uint16, float32 and its kind is not one of i, f, u, b; in every other case
  it returns an array.
\<close>

theorem fix_data_dtype_raises_iff:
  "(fix_data_dtype cast data = Inl TypeError) =
     (dtype data \<notin> set texture_dtypes \<and>
      kind (dtype data) \<notin> {CHR ''i'', CHR ''f'', CHR ''u'', CHR ''b''}) \<and>
   (\<exists>r. fix_data_dtype cast data = Inr r) =
     (\<not> (dtype data \<notin> set texture_dtypes \<and>
      kind (dtype data) \<notin> {CHR ''i'', CHR ''f'', CHR ''u'', CHR ''b''}))"
proof (cases "kind_table (kind (dtype data))")
  case None
  then show ?thesis
    using kind_table_None [of "kind (dtype data)"]
    by (simp add: fix_data_dtype_def Let_def)
next
  case (Some d0)
  then have "kind (dtype data) \<in> {CHR ''i'', CHR ''f'', CHR ''u'', CHR ''b''}"
    by (auto simp: kind_table_Some)
  then show ?thesis
    using Some by (simp add: fix_data_dtype_def Let_def)
qed

theorem fix_data_dtype_raises_iff_witness:
  "fix_data_dtype keep_elems complex_image = Inl TypeError \<and>
   fix_data_dtype keep_elems uint8_image \<noteq> Inl TypeError"
  using fix_data_dtype_raises_iff [of keep_elems complex_image]
    fix_data_dtype_raises_iff [of keep_elems uint8_image]
  by (simp add: complex_image_def complex128_def uint8_image_def texture_dtypes_def
      uint8_def uint16_def float32_def)

text \<open>
  Claim C4. An array whose dtype is already uint8, uint16 or float32 is returned
  unchanged.
\<close>

theorem fix_data_dtype_texture_identity:
  "dtype data \<in> set texture_dtypes \<Longrightarrow> fix_data_dtype cast data = Inr data"
  by (simp add: fix_data_dtype_def)

theorem fix_data_dtype_texture_identity_witness:
  "dtype uint8_image \<in> set texture_dtypes \<and>
   fix_data_dtype keep_elems uint8_image = Inr uint8_image"
proof -
  have h: "dtype uint8_image \<in> set texture_dtypes"
    by (simp add: uint8_image_def texture_dtypes_def)
  from fix_data_dtype_texture_identity [OF h] h show ?thesis by simp
qed

text \<open>
  Claim C5. \<^verbatim>\<open>fix_data_dtype\<close> is idempotent: applied to a result of its own, it
  returns that result unchanged.
\<close>

theorem fix_data_dtype_idempotent:
  assumes "fix_data_dtype cast data = Inr r"
  shows "fix_data_dtype cast r = Inr r"
proof -
  from assms have "dtype r \<in> set texture_dtypes"
    by (rule fix_data_dtype_result_dtype)
  then show ?thesis by (simp add: fix_data_dtype_def)
qed

theorem fix_data_dtype_idempotent_witness:
  "fix_data_dtype keep_elems int64_image = Inr (int64_image\<lparr>dtype := float32\<rparr>) \<and>
   fix_data_dtype keep_elems (int64_image\<lparr>dtype := float32\<rparr>) = Inr (int64_image\<lparr>dtype := float32\<rparr>)"
proof -
  have keep: "astype keep_elems a d = a\<lparr>dtype := d\<rparr>" for a d
    by (simp add: astype_def keep_elems_def [abs_def])
  have h: "fix_data_dtype keep_elems int64_image = Inr (int64_image\<lparr>dtype := float32\<rparr>)"
    by (simp add: fix_data_dtype_def Let_def keep texture_dtypes_def kind_table_def
        int64_image_def int64_def uint8_def uint16_def float32_def)
  from fix_data_dtype_idempotent [OF h] h show ?thesis by simp
qed


section \<open>Properties of \<^verbatim>\<open>get_max_texture_sizes\<close>\<close>

text \<open>
  Claim C8. The first call of \<^verbatim>\<open>get_max_texture_sizes\<close> (empty cache) returns the
  pair of the two values queried from OpenGL, inside \<^verbatim>\<open>_opengl_context\<close>, each
  replaced by None when the query returned the empty tuple; the result is cached, and
  every later call, in whatever state of the window system, returns that same result and
  leaves the cache as it is.
\<close>

theorem get_max_texture_sizes_cached:
  assumes "get_max_texture_sizes V (None, w) = (r, (c, w'))"
  shows "fst r = none_if_empty (fst (opengl_context V (glGetParameter V (GL_MAX_TEXTURE_SIZE V)) w)) \<and>
         snd r = none_if_empty (fst (opengl_context V (glGetParameter V GL_MAX_3D_TEXTURE_SIZE)
                    (snd (opengl_context V (glGetParameter V (GL_MAX_TEXTURE_SIZE V)) w)))) \<and>
         c = Some r \<and>
         (\<forall>w2. get_max_texture_sizes V (c, w2) = (r, (c, w2)))"
  using assms
  by (auto simp: get_max_texture_sizes_def get_max_texture_sizes_body_def Let_def
      split: prod.splits)

theorem get_max_texture_sizes_cached_witness:
  "get_max_texture_sizes demo_vispy (None, 0) = ((Some (GLInt 16385), None), (Some (Some (GLInt 16385), None), 2)) \<and>
   get_max_texture_sizes demo_vispy (Some (Some (GLInt 16385), None), 7)
     = ((Some (GLInt 16385), None), (Some (Some (GLInt 16385), None), 7))"
proof -
  have h: "get_max_texture_sizes demo_vispy (None, 0) =
      ((Some (GLInt 16385), None), (Some (Some (GLInt 16385), None), 2))"
    by (simp add: get_max_texture_sizes_def get_max_texture_sizes_body_def Let_def
        opengl_context_def demo_vispy_def none_if_empty_def GL_MAX_3D_TEXTURE_SIZE_def)
  from get_max_texture_sizes_cached [OF h]
  have c: "get_max_texture_sizes demo_vispy (Some (Some (GLInt 16385), None), 7)
     = ((Some (GLInt 16385), None), (Some (Some (GLInt 16385), None), 7))"
    by blast
  show ?thesis by (rule conjI [OF h c])
qed

section \<open>Properties of \<^verbatim>\<open>SelectableEventedList\<close>\<close>

subsection \<open>What each operation does to the fields\<close>

lemma list_insert_in_range:
  "0 \<le> i \<Longrightarrow> i \<le> int (length xs) \<Longrightarrow> list_insert i v xs = take (nat i) xs @ v # drop (nat i) xs"
  by (simp add: list_insert_def Let_def min_def)

lemma items_emit [simp]: "items (emit e s) = items s"
  and selection_emit [simp]: "selection (emit e s) = selection s"
  and current_emit [simp]: "current (emit e s) = current s"
  and activate_emit [simp]: "activate_on_insert (emit e s) = activate_on_insert s"
  and emitted_emit [simp]: "emitted (emit e s) = emitted s @ [(e, items s)]"
  by (simp_all add: emit_def)

lemma is_list_event_simps [simp]:
  "is_list_event (Inserting i)" "is_list_event (Inserted i v)"
  "is_list_event (Removing i)" "is_list_event (Removed i v)"
  "\<not> is_list_event (Selection_changed a r)" "\<not> is_list_event (Selection_active c)"
  "\<not> is_list_event (Selection_current c)"
  by (simp_all add: is_list_event_def)

lemma list_events_append [simp]: "list_events (xs @ ys) = list_events xs @ list_events ys"
  by (simp add: list_events_def)

lemma list_events_Nil [simp]: "list_events [] = []"
  by (simp add: list_events_def)

lemma list_events_Cons [simp]:
  "list_events ((e, xs) # evs) = (if is_list_event e then (e, xs) # list_events evs else list_events evs)"
  by (simp add: list_events_def)

lemma EventedList_insert_simps [simp]:
  "items (EventedList_insert i v s) = list_insert i v (items s)"
  "selection (EventedList_insert i v s) = selection s"
  "current (EventedList_insert i v s) = current s"
  "activate_on_insert (EventedList_insert i v s) = activate_on_insert s"
  "list_events (emitted (EventedList_insert i v s)) =
     list_events (emitted s) @ [(Inserting i, items s), (Inserted i v, list_insert i v (items s))]"
  by (simp_all add: EventedList_insert_def Let_def)

lemma Selection_set_current_simps [simp]:
  "items (Selection_set_current c s) = items s"
  "selection (Selection_set_current c s) = selection s"
  "current (Selection_set_current c s) = c"
  "activate_on_insert (Selection_set_current c s) = activate_on_insert s"
  by (auto simp: Selection_set_current_def)

lemma list_events_set_current [simp]:
  "list_events (emitted (Selection_set_current c s)) = list_events (emitted s)"
  by (simp add: Selection_set_current_def)

lemma Selection_discard_simps [simp]:
  "items (Selection_discard v s) = items s"
  "selection (Selection_discard v s) = removeAll v (selection s)"
  "current (Selection_discard v s) = current s"
  "activate_on_insert (Selection_discard v s) = activate_on_insert s"
  by (auto simp: Selection_discard_def)

lemma list_events_discard [simp]:
  "list_events (emitted (Selection_discard v s)) = list_events (emitted s)"
  by (simp add: Selection_discard_def)

lemma Selection_add_Inr:
  assumes "Selection_add preselect_hook v s = Inr s'"
  shows "items s' = items s" "set (selection s') = insert v (set (selection s))"
    "current s' = current s" "activate_on_insert s' = activate_on_insert s"
    "list_events (emitted s') = list_events (emitted s)"
    "v \<in> set (selection s) \<or> v \<in> set (items s)"
  using assms
  by (auto simp: Selection_add_def preselect_hook_def split: if_splits)

lemma Selection_add_Inl:
  assumes "Selection_add preselect_hook v s = Inl es"
  shows "es = (ValueError, s)" "v \<notin> set (items s)" "v \<notin> set (selection s)"
  using assms
  by (auto simp: Selection_add_def preselect_hook_def split: if_splits)

lemma Selection_add_total:
  "v \<in> set (items s) \<Longrightarrow> \<exists>s'. Selection_add preselect_hook v s = Inr s'"
  by (auto simp: Selection_add_def preselect_hook_def)


lemma Selection_set_active_Inr:
  assumes "v \<in> set (items s)"
  shows "\<exists>s'. Selection_set_active preselect_hook v s = Inr s' \<and> items s' = items s \<and>
           set (selection s') = {v} \<and> current s' = Some v \<and>
           activate_on_insert s' = activate_on_insert s \<and>
           list_events (emitted s') = list_events (emitted s)"
proof -
  define s1 where "s1 = (if filter (\<lambda>x. x \<noteq> v) (selection s) = [] then s
                else emit (Selection_changed [] (filter (\<lambda>x. x \<noteq> v) (selection s)))
                       (s\<lparr>selection := filter (\<lambda>x. x = v) (selection s)\<rparr>))"
  have sel1: "set (selection s1) \<subseteq> {v}"
    by (auto simp: s1_def filter_empty_conv)
  have it1: "items s1 = items s" and cur1: "current s1 = current s"
    and act1: "activate_on_insert s1 = activate_on_insert s"
    and ev1: "list_events (emitted s1) = list_events (emitted s)"
    by (auto simp: s1_def)
  from assms it1 obtain s2 where s2: "Selection_add preselect_hook v s1 = Inr s2"
    using Selection_add_total [of v s1] by auto
  note a = Selection_add_Inr [OF s2]
  have "Selection_set_active preselect_hook v s =
      Inr (emit (Selection_active (Some v)) (Selection_set_current (Some v) s2))"
    using s2 by (simp add: Selection_set_active_def Let_def s1_def)
  moreover have "set (selection s2) = {v}" using a(2) sel1 by auto
  ultimately show ?thesis
    using a it1 cur1 act1 ev1 by simp
qed

lemma Selection_set_active_Inl:
  assumes "Selection_set_active preselect_hook v s = Inl (e, s')"
  shows "items s' = items s \<and> set (selection s') \<subseteq> set (selection s)"
  using assms
  by (auto simp: Selection_set_active_def Let_def Selection_add_def preselect_hook_def
      split: if_splits sum.splits)

lemma in_set_list_insert [simp]: "set (list_insert i v xs) = insert v (set xs)"
proof -
  have "set (take n xs) \<union> set (drop n xs) = set xs" for n
    by (metis append_take_drop_id set_append)
  then show ?thesis by (auto simp: list_insert_def Let_def)
qed

lemma insert_sel_Inr:
  "\<exists>s'. insert_sel i v s = Inr s' \<and> items s' = list_insert i v (items s) \<and>
     activate_on_insert s' = activate_on_insert s \<and>
     (if activate_on_insert s then set (selection s') = {v} \<and> current s' = Some v
      else selection s' = selection s \<and> current s' = current s) \<and>
     list_events (emitted s') =
       list_events (emitted s) @ [(Inserting i, items s), (Inserted i v, list_insert i v (items s))]"
proof (cases "activate_on_insert s")
  case False
  then show ?thesis
    by (simp add: insert_sel_def Let_def)
next
  case True
  have "v \<in> set (items (EventedList_insert i v s))" by simp
  from Selection_set_active_Inr [OF this] True show ?thesis
    by (auto simp: insert_sel_def Let_def)
qed

lemma delitem_Inr:
  assumes "0 \<le> i" and "i < int (length (items s))"
  shows "\<exists>s'. EventedList_delitem process_delete_item i s = Inr s' \<and>
           items s' = take (nat i) (items s) @ drop (Suc (nat i)) (items s) \<and>
           selection s' = removeAll (items s ! nat i) (selection s) \<and>
           current s' = current s \<and> activate_on_insert s' = activate_on_insert s \<and>
           list_events (emitted s') =
             list_events (emitted s) @
               [(Removing i, items s),
                (Removed i (items s ! nat i), take (nat i) (items s) @ drop (Suc (nat i)) (items s))]"
  using assms
  by (simp add: EventedList_delitem_def Let_def process_delete_item_def)

lemma first_index_Some:
  "first_index v xs = Some i \<Longrightarrow> i < length xs \<and> xs ! i = v \<and> v \<notin> set (take i xs)"
  by (induction xs arbitrary: i) (auto split: if_splits)

lemma first_index_None: "first_index v xs = None \<longleftrightarrow> v \<notin> set xs"
  by (induction xs) auto

lemma state_after_simps [simp]:
  "state_after (Inl (e, s)) = s" "state_after (Inr s) = s"
  by (simp_all add: state_after_def)

lemma getitem_Inr: "EventedList_getitem k s = Inr v \<Longrightarrow> v \<in> set (items s)"
  by (auto simp: EventedList_getitem_def Let_def split: if_splits)

lemma inv_Selection_add:
  "selection_in_list s \<Longrightarrow> selection_in_list (state_after (Selection_add preselect_hook v s))"
  by (auto simp: selection_in_list_def Selection_add_def preselect_hook_def)

lemma inv_Selection_set_current [simp]:
  "selection_in_list (Selection_set_current c s) = selection_in_list s"
  by (simp add: selection_in_list_def)

lemma inv_emit [simp]: "selection_in_list (emit e s) = selection_in_list s"
  by (simp add: selection_in_list_def)

lemma inv_Selection_discard:
  "selection_in_list s \<Longrightarrow> selection_in_list (Selection_discard v s)"
  by (auto simp: selection_in_list_def)

lemma inv_Selection_set_active:
  assumes "selection_in_list s"
  shows "selection_in_list (state_after (Selection_set_active preselect_hook v s))"
proof (cases "Selection_set_active preselect_hook v s")
  case (Inl es)
  obtain e s' where es: "es = (e, s')" by (cases es)
  from Selection_set_active_Inl [OF Inl [unfolded es]] assms show ?thesis
    unfolding Inl es by (auto simp: selection_in_list_def)
next
  case (Inr s')
  with assms have vin: "v \<in> set (items s)"
    by (auto simp: Selection_set_active_def Let_def Selection_add_def preselect_hook_def
        selection_in_list_def split: if_splits sum.splits)
  from Selection_set_active_Inr [OF vin] Inr vin show ?thesis
    by (auto simp: selection_in_list_def)
qed

lemma remove_cases:
  "(v \<notin> set (items s) \<and> remove v s = Inl (ValueError, s)) \<or>
   (\<exists>k s'. first_index v (items s) = Some k \<and> remove v s = Inr s' \<and>
      items s' = take k (items s) @ drop (Suc k) (items s) \<and>
      selection s' = removeAll v (selection s) \<and> current s' = current s \<and>
      activate_on_insert s' = activate_on_insert s)"
proof (cases "first_index v (items s)")
  case None
  then have "v \<notin> set (items s)" by (simp add: first_index_None)
  with None show ?thesis
    by (simp add: remove_def EventedList_remove_def EventedList_index_def)
next
  case (Some k)
  from first_index_Some [OF Some] have kl: "k < length (items s)" and kx: "items s ! k = v"
    by simp_all
  have "0 \<le> int k" "int k < int (length (items s))" using kl by simp_all
  from delitem_Inr [OF this] kx Some show ?thesis
    by (auto simp: remove_def EventedList_remove_def EventedList_index_def)
qed

lemma set_delete_nth:
  assumes "k < length xs" and "y \<in> set xs" and "y \<noteq> xs ! k"
  shows "y \<in> set (take k xs @ drop (Suc k) xs)"
proof -
  from id_take_nth_drop [OF assms(1)]
  have "set xs = set (take k xs @ xs ! k # drop (Suc k) xs)"
    by (rule arg_cong)
  also have "\<dots> = set (take k xs) \<union> {xs ! k} \<union> set (drop (Suc k) xs)"
    by simp
  finally have "y \<in> set (take k xs) \<union> {xs ! k} \<union> set (drop (Suc k) xs)"
    using assms(2) by simp
  with assms(3) show ?thesis by auto
qed

lemma inv_remove:
  assumes "selection_in_list s"
  shows "selection_in_list (state_after (remove v s))"
  using remove_cases [of v s]
proof (elim disjE conjE exE)
  assume "remove v s = Inl (ValueError, s)"
  with assms show ?thesis by simp
next
  fix k s'
  assume k: "first_index v (items s) = Some k" and r: "remove v s = Inr s'"
    and it: "items s' = take k (items s) @ drop (Suc k) (items s)"
    and sel: "selection s' = removeAll v (selection s)"
  from first_index_Some [OF k] have kl: "k < length (items s)" and kx: "items s ! k = v"
    by simp_all
  have "y \<in> set (items s')" if "y \<in> set (selection s')" for y
  proof -
    from that sel have "y \<in> set (selection s)" "y \<noteq> v" by auto
    with assms kx have "y \<in> set (items s)" "y \<noteq> items s ! k"
      by (auto simp: selection_in_list_def)
    with kl show ?thesis unfolding it by (rule set_delete_nth)
  qed
  with r show ?thesis by (auto simp: selection_in_list_def)
qed

lemma remove_discards:
  "remove v s = Inr s' \<Longrightarrow> v \<notin> set (selection s')"
  using remove_cases [of v s] by auto

lemma inv_remove_selected_loop:
  "selection_in_list s \<Longrightarrow>
   (case remove_selected_loop xs idx s of
      Inl (e, s') \<Rightarrow> selection_in_list s'
    | Inr (idx', s') \<Rightarrow> selection_in_list s')"
proof (induction xs arbitrary: idx s)
  case Nil
  then show ?case by simp
next
  case (Cons i rest)
  show ?case
  proof (cases "EventedList_index i s")
    case (Inl e)
    with Cons.prems show ?thesis by simp
  next
    case (Inr idx')
    show ?thesis
    proof (cases "remove i s")
      case (Inl es)
      with inv_remove [OF Cons.prems, of i] Inr show ?thesis
        by (cases es) simp
    next
      case r: (Inr s')
      with inv_remove [OF Cons.prems, of i] have "selection_in_list s'" by simp
      from Cons.IH [OF this, of idx'] Inr r show ?thesis by simp
    qed
  qed
qed

lemma inv_remove_selected:
  assumes "selection_in_list s"
  shows "selection_in_list (state_after (remove_selected s))"
proof (cases "remove_selected_loop (selection s) 0 s")
  case (Inl es)
  with inv_remove_selected_loop [OF assms, of "selection s" 0] show ?thesis
    by (cases es) (simp add: remove_selected_def)
next
  case (Inr p)
  obtain idx s1 where p: "p = (idx, s1)" by (cases p)
  with Inr inv_remove_selected_loop [OF assms, of "selection s" 0]
  have inv1: "selection_in_list s1" by simp
  show ?thesis
  proof (cases "EventedList_getitem (max 0 (idx - 1)) s1")
    case (Inl e)
    with Inr p inv1 show ?thesis
      by (simp add: remove_selected_def Let_def)
  next
    case g: (Inr v)
    with Inr p inv1 inv_Selection_add [OF inv1, of v] show ?thesis
      by (simp add: remove_selected_def Let_def)
  qed
qed

lemma hook_all_preselect:
  "hook_all (preselect_hook s) xs = Inr ys \<Longrightarrow> ys = xs \<and> set xs \<subseteq> set (items s)"
  by (induction xs arbitrary: ys)
    (auto simp: preselect_hook_def split: if_splits sum.splits)

lemma inv_select_all:
  assumes "selection_in_list s"
  shows "selection_in_list (state_after (select_all s))"
proof (cases "hook_all (preselect_hook s) (filter (\<lambda>i. i \<notin> set (selection s)) (items s))")
  case (Inl e)
  with assms show ?thesis by (simp add: select_all_def Selection_update_def)
next
  case (Inr ys)
  from hook_all_preselect [OF Inr] have "set ys \<subseteq> set (items s)" by auto
  with Inr assms show ?thesis
    by (auto simp: select_all_def Selection_update_def Let_def selection_in_list_def)
qed

lemma inv_select_next:
  assumes "selection_in_list s"
  shows "selection_in_list (state_after (select_next truthy step shift s))"
proof -
  have add: "selection_in_list
      (state_after (case Selection_add preselect_hook v s of
                      Inl es \<Rightarrow> Inl es
                    | Inr s1 \<Rightarrow> Inr (Selection_set_current c s1)))" for v c
    using inv_Selection_add [OF assms, of v]
    by (cases "Selection_add preselect_hook v s") (auto simp: state_after_def)
  have rem: "selection_in_list
      (state_after (case Selection_remove v s of
                      Inl es \<Rightarrow> Inl es
                    | Inr s1 \<Rightarrow> Inr (Selection_set_current c s1)))" for v c
    using assms inv_Selection_discard [OF assms, of v]
    by (simp add: Selection_remove_def)
  have act: "selection_in_list (state_after (Selection_set_active preselect_hook v s))" for v
    using assms by (rule inv_Selection_set_active)
  show ?thesis
    unfolding select_next_def Let_def
    using assms add rem act
    by (simp split: option.split sum.split)
qed

subsection \<open>The claims\<close>

text \<open>
  Claim C3. Every public operation (\<^verbatim>\<open>insert\<close>, \<^verbatim>\<open>remove\<close>,
  \<^verbatim>\<open>remove_selected\<close>, \<^verbatim>\<open>select_all\<close>, \<^verbatim>\<open>select_next\<close>,
  \<^verbatim>\<open>select_previous\<close>, \<^verbatim>\<open>selection.add\<close>) preserves the invariant that the
  selection is a subset of the items of the list, whether it returns or raises: selecting
  an item that is not in the list raises ValueError and leaves the state as it was, and
  removing an item from the list discards it from the selection.
\<close>

theorem selection_in_list_preserved:
  assumes "selection_in_list s"
  shows "selection_in_list (state_after (insert_sel i v s)) \<and>
         selection_in_list (state_after (remove v s)) \<and>
         selection_in_list (state_after (remove_selected s)) \<and>
         selection_in_list (state_after (select_all s)) \<and>
         selection_in_list (state_after (select_next truthy step shift s)) \<and>
         selection_in_list (state_after (select_previous truthy shift s)) \<and>
         selection_in_list (state_after (Selection_add preselect_hook v s)) \<and>
         (v \<notin> set (items s) \<longrightarrow> Selection_add preselect_hook v s = Inl (ValueError, s)) \<and>
         (\<forall>s'. remove v s = Inr s' \<longrightarrow> v \<notin> set (selection s'))"
proof -
  have "selection_in_list (state_after (insert_sel i v s))"
  proof -
    from insert_sel_Inr [of i v s] obtain s' where r: "insert_sel i v s = Inr s'"
      and it: "items s' = list_insert i v (items s)"
      and sel: "if activate_on_insert s then set (selection s') = {v} \<and> current s' = Some v
                else selection s' = selection s \<and> current s' = current s"
      by blast
    from it sel assms have "selection_in_list s'"
      by (auto simp: selection_in_list_def split: if_splits)
    with r show ?thesis by simp
  qed
  moreover have "v \<notin> set (items s) \<longrightarrow> Selection_add preselect_hook v s = Inl (ValueError, s)"
    using assms by (auto simp: Selection_add_def preselect_hook_def selection_in_list_def)
  moreover have "selection_in_list (state_after (select_previous truthy shift s))"
    unfolding select_previous_def using assms by (rule inv_select_next)
  moreover have "\<forall>s'. remove v s = Inr s' \<longrightarrow> v \<notin> set (selection s')"
  proof (intro allI impI)
    fix s'
    assume "remove v s = Inr s'"
    then show "v \<notin> set (selection s')" by (rule remove_discards)
  qed
  moreover note inv_remove [OF assms, of v] inv_remove_selected [OF assms]
    inv_select_all [OF assms] inv_select_next [OF assms, of truthy step shift]
    inv_Selection_add [OF assms, of v]
  ultimately show ?thesis by (intro conjI)
qed

theorem selection_in_list_preserved_witness:
  "selection_in_list layers \<and>
   selection_in_list (state_after (insert_sel 0 ''z'' layers)) \<and>
   selection_in_list (state_after (remove_selected layers)) \<and>
   selection_in_list (state_after (select_next nonempty 1 True layers)) \<and>
   Selection_add preselect_hook ''z'' layers = Inl (ValueError, layers)"
proof -
  have h: "selection_in_list layers"
    by (simp add: selection_in_list_def layers_def)
  have z: "''z'' \<notin> set (items layers)"
    by (simp add: layers_def)
  from selection_in_list_preserved [OF h, of 0 "''z''" nonempty 1 True] z h
  show ?thesis by simp
qed

text \<open>
  Claim C6. The list is an ordered collection: for every index \<open>0 \<le> i \<le> len\<close> and
  every value, after \<^verbatim>\<open>insert(i, value)\<close> the element at position \<open>i\<close> is the value,
  the elements before \<open>i\<close> are the original elements before \<open>i\<close> in their order, and
  the elements from \<open>i + 1\<close> on are the original elements from \<open>i\<close> on in their
  order.
\<close>

theorem insert_sel_ordered:
  assumes "0 \<le> i" and "i \<le> int (length (items s))"
  shows "\<exists>s'. insert_sel i v s = Inr s' \<and>
           length (items s') = Suc (length (items s)) \<and>
           items s' ! nat i = v \<and>
           take (nat i) (items s') = take (nat i) (items s) \<and>
           drop (Suc (nat i)) (items s') = drop (nat i) (items s)"
proof -
  from insert_sel_Inr [of i v s] obtain s' where r: "insert_sel i v s = Inr s'"
    and it: "items s' = list_insert i v (items s)"
    by blast
  have n: "nat i \<le> length (items s)" using assms by simp
  have li: "list_insert i v (items s) = take (nat i) (items s) @ v # drop (nat i) (items s)"
    using assms by (rule list_insert_in_range)
  have l: "length (take (nat i) (items s)) = nat i" using n by simp
  have "items s' ! nat i = v"
    unfolding it li using l by (simp add: nth_append)
  moreover have "take (nat i) (items s') = take (nat i) (items s)"
    unfolding it li using l by simp
  moreover have "drop (Suc (nat i)) (items s') = drop (nat i) (items s)"
    unfolding it li using l by simp
  moreover have "length (items s') = Suc (length (items s))"
    unfolding it li using n by simp
  ultimately show ?thesis using r by simp
qed

theorem insert_sel_ordered_witness:
  "insert_sel 1 ''x'' layers \<noteq> Inl (ValueError, layers) \<and>
   items (state_after (insert_sel 1 ''x'' layers)) = [''a'', ''x'', ''b'', ''c'']"
proof -
  have h: "(0::int) \<le> 1" "1 \<le> int (length (items layers))"
    by (simp_all add: layers_def)
  from insert_sel_ordered [OF h, of "''x''"] obtain s' where
    r: "insert_sel 1 ''x'' layers = Inr s'" and
    a: "length (items s') = Suc (length (items layers))" "items s' ! nat 1 = ''x''"
       "take (nat 1) (items s') = take (nat 1) (items layers)"
       "drop (Suc (nat 1)) (items s') = drop (nat 1) (items layers)"
    by blast
  have "items s' = take (nat 1) (items s') @ items s' ! nat 1 # drop (Suc (nat 1)) (items s')"
    using a(1) by (simp add: id_take_nth_drop layers_def)
  then have "items s' = [''a'', ''x'', ''b'', ''c'']"
    unfolding a by (simp add: layers_def)
  with r show ?thesis by (simp add: state_after_def)
qed





text \<open>
  Claim C10. When the selection is empty, \<^verbatim>\<open>remove_selected\<close> removes no item from
  the list, and if the list is not empty it adds the element at index 0 to the selection
  (an empty list is left as it is).
\<close>

theorem remove_selected_empty_selection:
  assumes "selection s = []"
  shows "\<exists>s'. remove_selected s = Inr s' \<and> items s' = items s \<and>
           (if items s = [] then s' = s else selection s' = [items s ! 0])"
proof (cases "items s")
  case Nil
  with assms show ?thesis
    by (simp add: remove_selected_def Let_def)
next
  case (Cons x xs)
  with assms show ?thesis
    by (simp add: remove_selected_def Let_def EventedList_getitem_def Selection_add_def
        preselect_hook_def)
qed

theorem remove_selected_empty_selection_witness:
  "selection unselected_layers = [] \<and>
   items (state_after (remove_selected unselected_layers)) = [''a'', ''b'', ''c''] \<and>
   selection (state_after (remove_selected unselected_layers)) = [''a'']"
proof -
  have h: "selection unselected_layers = []" by (simp add: unselected_layers_def)
  from remove_selected_empty_selection [OF h] obtain s' where
    r: "remove_selected unselected_layers = Inr s'" and
    i: "items s' = items unselected_layers" and
    s: "if items unselected_layers = [] then s' = unselected_layers
        else selection s' = [items unselected_layers ! 0]"
    by blast
  from s have "selection s' = [''a'']"
    by (simp add: unselected_layers_def layers_def)
  with r i h show ?thesis
    by (simp add: unselected_layers_def layers_def)
qed

end
